theory Spec2Isabelle
  imports Main "HOL-Library.AList"
begin

section \<open>The JavaScript runtime, as far as App.tsx uses it\<close>

text \<open>
  Strings are lists of characters, and a character is a UTF-16 code unit below 256 (Basic
  Latin and Latin-1). \<open>toUpperCase\<close> gives the upper-case letter for each of the letters
  a to z and for each lower-case letter of Latin-1, and \<open>SS\<close> for U+00DF; every other
  character stays as it is. The two characters whose upper-case form is a code unit
  beyond 255 (U+00B5 and U+00FF) are left as they are: like those forms, they are no key
  of the alphabet table.
\<close>

definition lowerCase :: string where
  "lowerCase =
     ''abcdefghijklmnopqrstuvwxyz''
     @ [CHR 0xE0, CHR 0xE1, CHR 0xE2, CHR 0xE3, CHR 0xE4, CHR 0xE5, CHR 0xE6, CHR 0xE7,
        CHR 0xE8, CHR 0xE9, CHR 0xEA, CHR 0xEB, CHR 0xEC, CHR 0xED, CHR 0xEE, CHR 0xEF,
        CHR 0xF0, CHR 0xF1, CHR 0xF2, CHR 0xF3, CHR 0xF4, CHR 0xF5, CHR 0xF6,
        CHR 0xF8, CHR 0xF9, CHR 0xFA, CHR 0xFB, CHR 0xFC, CHR 0xFD, CHR 0xFE]"

definition upperCase :: string where
  "upperCase =
     ''ABCDEFGHIJKLMNOPQRSTUVWXYZ''
     @ [CHR 0xC0, CHR 0xC1, CHR 0xC2, CHR 0xC3, CHR 0xC4, CHR 0xC5, CHR 0xC6, CHR 0xC7,
        CHR 0xC8, CHR 0xC9, CHR 0xCA, CHR 0xCB, CHR 0xCC, CHR 0xCD, CHR 0xCE, CHR 0xCF,
        CHR 0xD0, CHR 0xD1, CHR 0xD2, CHR 0xD3, CHR 0xD4, CHR 0xD5, CHR 0xD6,
        CHR 0xD8, CHR 0xD9, CHR 0xDA, CHR 0xDB, CHR 0xDC, CHR 0xDD, CHR 0xDE]"

definition toUpperChars :: "char \<Rightarrow> string" where
  "toUpperChars c =
     (if c = CHR 0xDF then ''SS''
      else (case map_of (zip lowerCase upperCase) c of
              Some u \<Rightarrow> [u]
            | None \<Rightarrow> [c]))"

definition toUpperCase :: "string \<Rightarrow> string" where
  "toUpperCase text = concat (map toUpperChars text)"

text \<open>\<open>s.split('')\<close>: one string per character; the empty string gives the empty array.\<close>

definition split_chars :: "string \<Rightarrow> string list" where
  "split_chars s = map (\<lambda>c. [c]) s"

text \<open>
  \<open>s.split(sep)\<close> for a one-character separator: the result always has one element more
  than \<open>s\<close> has separators, so the empty string gives the array holding the empty string.
\<close>

fun String_split :: "char \<Rightarrow> string \<Rightarrow> string list" where
  "String_split sep [] = [[]]"
| "String_split sep (c # cs) =
     (if c = sep then [] # String_split sep cs
      else (case String_split sep cs of
              w # ws \<Rightarrow> (c # w) # ws
            | [] \<Rightarrow> [[c]]))"

fun join :: "string \<Rightarrow> string list \<Rightarrow> string" where
  "join sep [] = []"
| "join sep [x] = x"
| "join sep (x # y # ys) = x @ sep @ join sep (y # ys)"

text \<open>
  \<open>s.trim()\<close> removes white space and line terminators at both ends: among the characters
  below 256, the tab, the line feed, the vertical tab, the form feed, the carriage return,
  the space and the no-break space.
\<close>

definition isWhiteSpace :: "char \<Rightarrow> bool" where
  "isWhiteSpace c =
     (c \<in> set [CHR 0x09, CHR 0x0A, CHR 0x0B, CHR 0x0C, CHR 0x0D, CHR '' '', CHR 0xA0])"

definition trim :: "string \<Rightarrow> string" where
  "trim s = rev (dropWhile isWhiteSpace (rev (dropWhile isWhiteSpace s)))"

text \<open>
  The values a property read can give here: \<open>undefined\<close>, a string, or a built-in function
  or object. A built-in is only ever converted to a string, so it is carried as the text
  that conversion gives.
\<close>

datatype js_value = Undefined | Str string | Builtin string

fun truthy :: "js_value \<Rightarrow> bool" where
  "truthy Undefined = False"
| "truthy (Str s) = (s \<noteq> [])"
| "truthy (Builtin t) = True"

text \<open>\<open>a || b\<close>\<close>

definition js_or :: "js_value \<Rightarrow> js_value \<Rightarrow> js_value" where
  "js_or a b = (if truthy a then a else b)"

text \<open>String conversion of an array element, as \<open>Array.prototype.join\<close> does it.\<close>

fun ToString :: "js_value \<Rightarrow> string" where
  "ToString Undefined = []"
| "ToString (Str s) = s"
| "ToString (Builtin t) = t"

text \<open>
  An object created by an object literal holds its own properties in insertion order and
  inherits from \<open>Object.prototype\<close>. Each inherited property is listed with the text of its
  value (a native function prints as V8 prints it; \<open>__proto__\<close> reads \<open>Object.prototype\<close>
  itself).
\<close>

type_synonym js_object = "(string \<times> string) list"

definition nativeFunction :: "string \<Rightarrow> string" where
  "nativeFunction name = ''function '' @ name @ ''() { [native code] }''"

definition Object_prototype :: "(string \<times> string) list" where
  "Object_prototype =
     [(''constructor'', nativeFunction ''Object''),
      (''__defineGetter__'', nativeFunction ''__defineGetter__''),
      (''__defineSetter__'', nativeFunction ''__defineSetter__''),
      (''hasOwnProperty'', nativeFunction ''hasOwnProperty''),
      (''__lookupGetter__'', nativeFunction ''__lookupGetter__''),
      (''__lookupSetter__'', nativeFunction ''__lookupSetter__''),
      (''isPrototypeOf'', nativeFunction ''isPrototypeOf''),
      (''propertyIsEnumerable'', nativeFunction ''propertyIsEnumerable''),
      (''toString'', nativeFunction ''toString''),
      (''valueOf'', nativeFunction ''valueOf''),
      (''__proto__'', ''[object Object]''),
      (''toLocaleString'', nativeFunction ''toLocaleString'')]"

text \<open>\<open>obj[key]\<close>: an own property first, then the prototype, else \<open>undefined\<close>.\<close>

definition getProp :: "js_object \<Rightarrow> string \<Rightarrow> js_value" where
  "getProp obj key =
     (case map_of obj key of
        Some v \<Rightarrow> Str v
      | None \<Rightarrow>
          (case map_of Object_prototype key of
             Some t \<Rightarrow> Builtin t
           | None \<Rightarrow> Undefined))"

text \<open>
  \<open>Object.entries(obj)\<close>: the own properties, those whose key is an array index first, in
  ascending numeric order, then the others in insertion order.
\<close>

definition isDigit :: "char \<Rightarrow> bool" where
  "isDigit c = (c \<in> set ''0123456789'')"

definition numval :: "string \<Rightarrow> int" where
  "numval k = foldl (\<lambda>n c. 10 * n + (of_char c - 48)) 0 k"

definition isArrayIndex :: "string \<Rightarrow> bool" where
  "isArrayIndex k =
     (k \<noteq> [] \<and> list_all isDigit k \<and> (if hd k = CHR ''0'' then k = ''0'' else True)
      \<and> numval k < 4294967295)"

definition Object_entries :: "js_object \<Rightarrow> (string \<times> string) list" where
  "Object_entries obj =
     sort_key (\<lambda>p. numval (fst p)) (filter (\<lambda>p. isArrayIndex (fst p)) obj)
     @ filter (\<lambda>p. \<not> isArrayIndex (fst p)) obj"

section \<open>The transcoder\<close>

definition MORSE_MAP :: js_object where
  "MORSE_MAP =
     [(''A'', ''.-''), (''B'', ''-...''), (''C'', ''-.-.''), (''D'', ''-..''), (''E'', ''.''),
      (''F'', ''..-.''), (''G'', ''--.''), (''H'', ''....''), (''I'', ''..''), (''J'', ''.---''),
      (''K'', ''-.-''), (''L'', ''.-..''), (''M'', ''--''), (''N'', ''-.''), (''O'', ''---''),
      (''P'', ''.--.''), (''Q'', ''--.-''), (''R'', ''.-.''), (''S'', ''...''), (''T'', ''-''),
      (''U'', ''..-''), (''V'', ''...-''), (''W'', ''.--''), (''X'', ''-..-''), (''Y'', ''-.--''),
      (''Z'', ''--..''), (''0'', ''-----''), (''1'', ''.----''), (''2'', ''..---''),
      (''3'', ''...--''), (''4'', ''....-''), (''5'', ''.....''), (''6'', ''-....''),
      (''7'', ''--...''), (''8'', ''---..''), (''9'', ''----.''), ('' '', ''/'')]"

text \<open>
  \<open>Object.entries(MORSE_MAP).reduce((acc, [char, morse]) => ({ ...acc, [morse]: char }), {})\<close>:
  the spread copies the own properties of \<open>acc\<close> in order, and the computed key replaces
  the value of an existing property in place or adds a new last one.
\<close>

definition REVERSE_MORSE_MAP :: js_object where
  "REVERSE_MORSE_MAP =
     fold (\<lambda>(char, morse) acc. AList.update morse char acc) (Object_entries MORSE_MAP) []"

text \<open>The arrow function that \<open>encodeMorse\<close> maps over the characters.\<close>

definition encodeChar :: "string \<Rightarrow> string" where
  "encodeChar char = ToString (js_or (getProp MORSE_MAP char) (Str ''''))"

definition encodeMorse :: "string \<Rightarrow> string" where
  "encodeMorse text = trim (join '' '' (map encodeChar (split_chars (toUpperCase text))))"

text \<open>The arrow function that \<open>decodeMorse\<close> maps over the tokens.\<close>

definition decodeToken :: "string \<Rightarrow> string" where
  "decodeToken code =
     ToString (js_or (getProp REVERSE_MORSE_MAP code)
                     (if code = ''/'' then Str '' '' else Str ''?''))"

definition decodeMorse :: "string \<Rightarrow> string" where
  "decodeMorse morse = join '''' (map decodeToken (String_split (CHR '' '') morse))"

subsection \<open>The alphabet, in the words of the specification\<close>

text \<open>
  The supported characters: the letters in either case, the digits and the space. A
  character of the upper-cased text is in the table when it is a key of \<open>MORSE_MAP\<close>; a
  character of the text is in the alphabet when its upper-case form is made of such keys,
  and \<open>dropUnsupported\<close> removes the characters that are not. \<open>supportedSpan\<close> is an
  upper-cased text from its first to its last character in the table.
\<close>

definition supportedChars :: string where
  "supportedChars =
     ''ABCDEFGHIJKLMNOPQRSTUVWXYZabcdefghijklmnopqrstuvwxyz0123456789 ''"

definition inTable :: "char \<Rightarrow> bool" where
  "inTable u = (map_of MORSE_MAP [u] \<noteq> None)"

definition inAlphabet :: "char \<Rightarrow> bool" where
  "inAlphabet c = list_all inTable (toUpperChars c)"

definition dropUnsupported :: "string \<Rightarrow> string" where
  "dropUnsupported text = filter inAlphabet text"

definition supportedSpan :: "string \<Rightarrow> string" where
  "supportedSpan upper =
     rev (dropWhile (\<lambda>u. \<not> inTable u) (rev (dropWhile (\<lambda>u. \<not> inTable u) upper)))"

section \<open>The tone generator\<close>

text \<open>
  \<open>MorseAudio\<close>: \<open>ctx\<close> and \<open>gainNode\<close> are assigned together, by \<open>init()\<close> and nowhere
  else, so one field stands for both: \<open>None\<close> until \<open>init()\<close> has run, then the target
  of the gain (0 is \<open>Silent\<close>, 0.1 is \<open>Audible\<close>). \<open>oscillator\<close> says whether the field of
  that name holds a node.
\<close>

datatype gain_level = Silent | Audible

record MorseAudio =
  gainNode :: "gain_level option"
  oscillator :: bool

definition MorseAudio_init :: "MorseAudio \<Rightarrow> MorseAudio" where
  "MorseAudio_init a = (if gainNode a = None then a\<lparr>gainNode := Some Silent\<rparr> else a)"

definition MorseAudio_start :: "MorseAudio \<Rightarrow> MorseAudio" where
  "MorseAudio_start a =
     (let a1 = MorseAudio_init a in
      if gainNode a1 \<noteq> None then a1\<lparr>oscillator := True, gainNode := Some Audible\<rparr> else a1)"

section \<open>The keyer\<close>

text \<open>
  The browser's pending timeouts, each with its id, the time it is due and what it runs:
  the commit of \<open>handleKeyUp\<close> or the oscillator teardown of \<open>MorseAudio.stop\<close>.
\<close>

datatype callback = Commit | Teardown

record timer =
  tid :: nat
  due :: int
  callback :: callback

text \<open>
  The state of the component (\<open>useState\<close>, \<open>useRef\<close>), the module's \<open>audio\<close> object and the
  timeouts. Times are \<open>Date.now()\<close>, in milliseconds. \<open>timeoutRef\<close> is \<open>None\<close> for \<open>null\<close>; the
  ids the browser hands out are positive, and \<open>handleKeyDown\<close> tests the id for truth.
\<close>

record app =
  inputText :: string
  inputMorse :: string
  isMuted :: bool
  isSecure :: bool
  signalActive :: bool
  lastPressTime :: int
  currentSequence :: string
  timeoutRef :: "nat option"
  audio :: MorseAudio
  timers :: "timer list"
  nextTimer :: nat

definition initial :: app where
  "initial =
     \<lparr>inputText = [], inputMorse = [], isMuted = False, isSecure = True, signalActive = False,
      lastPressTime = 0, currentSequence = [], timeoutRef = None,
      audio = \<lparr>gainNode = None, oscillator = False\<rparr>, timers = [], nextTimer = 1\<rparr>"

definition setTimeout :: "callback \<Rightarrow> int \<Rightarrow> int \<Rightarrow> app \<Rightarrow> nat \<times> app" where
  "setTimeout cb delay now s =
     (nextTimer s,
      s\<lparr>timers := timers s @ [\<lparr>tid = nextTimer s, due = now + delay, callback = cb\<rparr>],
        nextTimer := Suc (nextTimer s)\<rparr>)"

definition clearTimeout :: "nat \<Rightarrow> app \<Rightarrow> app" where
  "clearTimeout t s = s\<lparr>timers := filter (\<lambda>x. tid x \<noteq> t) (timers s)\<rparr>"

definition MorseAudio_stop :: "int \<Rightarrow> app \<Rightarrow> app" where
  "MorseAudio_stop now s =
     (if gainNode (audio s) \<noteq> None
      then snd (setTimeout Teardown 50 now (s\<lparr>audio := (audio s)\<lparr>gainNode := Some Silent\<rparr>\<rparr>))
      else s)"

definition handleKeyDown :: "int \<Rightarrow> app \<Rightarrow> app" where
  "handleKeyDown now s =
     (if isMuted s then s
      else
        let s1 = s\<lparr>signalActive := True\<rparr>;
            s2 = s1\<lparr>audio := MorseAudio_start (audio s1)\<rparr>;
            s3 = s2\<lparr>lastPressTime := now\<rparr>
        in (case timeoutRef s3 of
              None \<Rightarrow> s3
            | Some t \<Rightarrow> if t \<noteq> 0 then clearTimeout t s3 else s3))"

definition handleKeyUp :: "int \<Rightarrow> app \<Rightarrow> app" where
  "handleKeyUp now s =
     (let s1 = s\<lparr>signalActive := False\<rparr>;
          s2 = MorseAudio_stop now s1;
          duration = now - lastPressTime s2;
          symbol = (if duration < 200 then CHR ''.'' else CHR ''-'');
          s3 = s2\<lparr>currentSequence := currentSequence s2 @ [symbol]\<rparr>;
          (t, s4) = setTimeout Commit 600 now s3
      in s4\<lparr>timeoutRef := Some t\<rparr>)"

text \<open>What a timeout runs when it fires.\<close>

definition commit :: "app \<Rightarrow> app" where
  "commit s =
     (if currentSequence s \<noteq> []
      then s\<lparr>inputMorse :=
               (if inputMorse s \<noteq> [] then inputMorse s @ '' '' @ currentSequence s
                else currentSequence s),
             currentSequence := []\<rparr>
      else s)"

definition teardown :: "app \<Rightarrow> app" where
  "teardown s = (if oscillator (audio s) then s\<lparr>audio := (audio s)\<lparr>oscillator := False\<rparr>\<rparr> else s)"

fun run_callback :: "callback \<Rightarrow> app \<Rightarrow> app" where
  "run_callback Commit s = commit s"
| "run_callback Teardown s = teardown s"

text \<open>The timeout \<open>t\<close> fires: it leaves the pending ones and its callback runs.\<close>

definition fire :: "nat \<Rightarrow> app \<Rightarrow> app" where
  "fire t s =
     (case find (\<lambda>x. tid x = t) (timers s) of
        None \<Rightarrow> s
      | Some x \<Rightarrow> run_callback (callback x) (clearTimeout t s))"

text \<open>
  Time passes until \<open>now\<close>: the timeouts due by then fire, the earliest first, those due at
  the same time in the order they were set.
\<close>

definition advance :: "int \<Rightarrow> app \<Rightarrow> app" where
  "advance now s = fold fire (map tid (sort_key due (filter (\<lambda>x. due x \<le> now) (timers s)))) s"

text \<open>
  The events of the key element, of the mute button and of the two text areas (a clear
  button sets the empty value), each with the time it happens at; the timeouts due by then
  have fired before the handler runs.
\<close>

datatype event =
  MouseDown | MouseUp | MouseLeave | TouchStart | TouchEnd | ToggleMute
  | ChangeText string | ChangeMorse string

fun handle :: "event \<Rightarrow> int \<Rightarrow> app \<Rightarrow> app" where
  "handle MouseDown now s = handleKeyDown now s"
| "handle MouseUp now s = handleKeyUp now s"
| "handle MouseLeave now s = (if signalActive s then handleKeyUp now s else s)"
| "handle TouchStart now s = handleKeyDown now s"
| "handle TouchEnd now s = handleKeyUp now s"
| "handle ToggleMute now s = s\<lparr>isMuted := \<not> isMuted s\<rparr>"
| "handle (ChangeText v) now s = s\<lparr>inputText := v\<rparr>"
| "handle (ChangeMorse v) now s = s\<lparr>inputMorse := v\<rparr>"

definition step :: "int \<times> event \<Rightarrow> app \<Rightarrow> app" where
  "step e s = handle (snd e) (fst e) (advance (fst e) s)"

definition run :: "(int \<times> event) list \<Rightarrow> app \<Rightarrow> app" where
  "run es s = fold step es s"

subsection \<open>Presses and the states they start from\<close>








subsection \<open>Event sequences used as examples\<close>

text \<open>
  A press whose pointer leaves the key and comes back before the button is released: the
  leave and the release both run \<open>handleKeyUp\<close>.
\<close>

definition drag_out_and_back :: "(int \<times> event) list" where
  "drag_out_and_back = [(1000, MouseDown), (1100, MouseLeave), (1200, MouseUp)]"

text \<open>One press, and two presses 500 ms apart, after the mute button was clicked.\<close>

definition muted_release :: "(int \<times> event) list" where
  "muted_release = [(0, ToggleMute), (1000, MouseDown), (1100, MouseUp)]"


text \<open>A press of 150 ms and its release.\<close>

definition one_press :: "(int \<times> event) list" where
  "one_press = [(1000, MouseDown), (1150, MouseUp)]"



section \<open>Properties of the transcoder\<close>

subsection \<open>Splitting, joining and trimming\<close>

lemma String_split_not_Nil [simp]: "String_split sep s \<noteq> []"
  by (induction s) (auto split: list.splits)

lemma String_split_no_sep: "sep \<notin> set t \<Longrightarrow> String_split sep t = [t]"
  by (induction t) auto

lemma String_split_append:
  "sep \<notin> set t \<Longrightarrow> String_split sep (t @ sep # r) = t # String_split sep r"
  by (induction t) auto

lemma length_String_split: "length (String_split sep s) = Suc (length (filter (\<lambda>c. c = sep) s))"
  by (induction s) (auto split: list.splits)

lemma join_Cons: "ys \<noteq> [] \<Longrightarrow> join sep (x # ys) = x @ sep @ join sep ys"
  by (cases ys) auto

lemma join_snoc: "ys \<noteq> [] \<Longrightarrow> join sep (ys @ [y]) = join sep ys @ sep @ y"
  by (induction sep ys rule: join.induct) auto

lemma join_Nil_sep: "join [] xs = concat xs"
  by (induction "[] :: string" xs rule: join.induct) auto

lemma split_join:
  assumes "ts \<noteq> []" and "\<forall>t\<in>set ts. sep \<notin> set t"
  shows "String_split sep (join [sep] ts) = ts"
  using assms
proof (induction ts)
  case Nil
  then show ?case by simp
next
  case (Cons t ts)
  show ?case
  proof (cases ts)
    case Nil
    with Cons.prems show ?thesis by (simp add: String_split_no_sep)
  next
    case (Cons u us)
    with Cons.prems Cons.IH show ?thesis
      by (simp add: String_split_append del: String_split.simps)
  qed
qed

lemma join_hd_last:
  assumes "ts \<noteq> []" and "\<forall>t\<in>set ts. t \<noteq> []"
  shows "join sep ts \<noteq> [] \<and> hd (join sep ts) = hd (hd ts) \<and> last (join sep ts) = last (last ts)"
  using assms by (induction sep ts rule: join.induct) auto

lemma trim_pad_left: "list_all isWhiteSpace a \<Longrightarrow> trim (a @ x) = trim x"
  by (simp add: trim_def dropWhile_append2 list_all_iff)

lemma trim_pad_right:
  assumes "list_all isWhiteSpace b"
  shows "trim (x @ b) = trim x"
proof (cases "\<forall>c\<in>set x. isWhiteSpace c")
  case True
  with assms have l: "dropWhile isWhiteSpace (x @ b) = []" and r: "dropWhile isWhiteSpace x = []"
    by (auto simp add: list_all_iff)
  show ?thesis unfolding trim_def l r by simp
next
  case False
  then have l: "dropWhile isWhiteSpace (x @ b) = dropWhile isWhiteSpace x @ b"
    by auto
  from assms have "dropWhile isWhiteSpace (rev b @ rev (dropWhile isWhiteSpace x)) =
      dropWhile isWhiteSpace (rev (dropWhile isWhiteSpace x))"
    by (intro dropWhile_append2) (simp add: list_all_iff)
  then show ?thesis unfolding trim_def l by simp
qed

lemma trim_id:
  assumes "x \<noteq> []" and "\<not> isWhiteSpace (hd x)" and "\<not> isWhiteSpace (last x)"
  shows "trim x = x"
proof -
  from assms have a: "dropWhile isWhiteSpace x = x" by (cases x) auto
  from assms have "rev x \<noteq> []" "\<not> isWhiteSpace (hd (rev x))" by (simp_all add: hd_rev)
  then have "dropWhile isWhiteSpace (rev x) = rev x" by (cases "rev x") auto
  with a show ?thesis by (simp add: trim_def)
qed

lemma trim_join_Nil_left: "trim (join '' '' ([] # ys)) = trim (join '' '' ys)"
proof (cases ys)
  case Nil
  then show ?thesis by simp
next
  case (Cons y zs)
  have "trim ('' '' @ join '' '' (y # zs)) = trim (join '' '' (y # zs))"
    by (rule trim_pad_left) (simp add: isWhiteSpace_def)
  with Cons show ?thesis by simp
qed

lemma trim_join_Nil_right: "trim (join '' '' (ys @ [[]])) = trim (join '' '' ys)"
proof (cases "ys = []")
  case True
  then show ?thesis by simp
next
  case False
  have "trim (join '' '' ys @ '' '') = trim (join '' '' ys)"
    by (rule trim_pad_right) (simp add: isWhiteSpace_def)
  with False show ?thesis by (simp add: join_snoc)
qed

subsection \<open>The two tables\<close>

lemma REVERSE_MORSE_MAP_explicit:
  "REVERSE_MORSE_MAP =
     [(''-----'', ''0''), (''.----'', ''1''), (''..---'', ''2''), (''...--'', ''3''),
      (''....-'', ''4''), (''.....'', ''5''), (''-....'', ''6''), (''--...'', ''7''),
      (''---..'', ''8''), (''----.'', ''9''),
      (''.-'', ''A''), (''-...'', ''B''), (''-.-.'', ''C''), (''-..'', ''D''), (''.'', ''E''),
      (''..-.'', ''F''), (''--.'', ''G''), (''....'', ''H''), (''..'', ''I''), (''.---'', ''J''),
      (''-.-'', ''K''), (''.-..'', ''L''), (''--'', ''M''), (''-.'', ''N''), (''---'', ''O''),
      (''.--.'', ''P''), (''--.-'', ''Q''), (''.-.'', ''R''), (''...'', ''S''), (''-'', ''T''),
      (''..-'', ''U''), (''...-'', ''V''), (''.--'', ''W''), (''-..-'', ''X''), (''-.--'', ''Y''),
      (''--..'', ''Z''), (''/'', '' '')]"
  by code_simp

lemma REVERSE_MORSE_MAP_swap:
  "REVERSE_MORSE_MAP = map (\<lambda>(char, morse). (morse, char)) (Object_entries MORSE_MAP)"
  by code_simp

lemma set_Object_entries: "set (Object_entries obj) = set obj"
  by (auto simp add: Object_entries_def)

lemma set_REVERSE_MORSE_MAP:
  "((morse, char) \<in> set REVERSE_MORSE_MAP) = ((char, morse) \<in> set MORSE_MAP)"
  unfolding REVERSE_MORSE_MAP_swap by (auto simp add: set_Object_entries)

lemma distinct_MORSE_MAP: "distinct (map fst MORSE_MAP)"
  by code_simp

lemma distinct_REVERSE_MORSE_MAP: "distinct (map fst REVERSE_MORSE_MAP)"
  unfolding REVERSE_MORSE_MAP_explicit by simp

lemma map_of_REVERSE_MORSE_MAP:
  "(map_of REVERSE_MORSE_MAP morse = Some char) = (map_of MORSE_MAP char = Some morse)"
  using distinct_MORSE_MAP distinct_REVERSE_MORSE_MAP set_REVERSE_MORSE_MAP
  by (metis map_of_eq_Some_iff)

lemma MORSE_MAP_entries:
  "list_all (\<lambda>(char, morse). length char = 1 \<and> morse \<noteq> [] \<and> CHR '' '' \<notin> set morse
      \<and> \<not> isWhiteSpace (hd morse) \<and> \<not> isWhiteSpace (last morse)) MORSE_MAP"
  by (simp add: MORSE_MAP_def isWhiteSpace_def)

lemma MORSE_MAP_no_white_space:
  "list_all (\<lambda>(char, morse). list_all (\<lambda>c. \<not> isWhiteSpace c) morse) MORSE_MAP"
  by (simp add: MORSE_MAP_def isWhiteSpace_def)

lemma MORSE_MAP_entry:
  assumes "map_of MORSE_MAP char = Some morse"
  shows "length char = 1" and "morse \<noteq> []" and "CHR '' '' \<notin> set morse"
    and "\<not> isWhiteSpace (hd morse)" and "\<not> isWhiteSpace (last morse)"
proof -
  from assms have "(char, morse) \<in> set MORSE_MAP" by (rule map_of_SomeD)
  with MORSE_MAP_entries
  have "length char = 1 \<and> morse \<noteq> [] \<and> CHR '' '' \<notin> set morse
      \<and> \<not> isWhiteSpace (hd morse) \<and> \<not> isWhiteSpace (last morse)"
    unfolding list_all_iff by blast
  then show "length char = 1" and "morse \<noteq> []" and "CHR '' '' \<notin> set morse"
    and "\<not> isWhiteSpace (hd morse)" and "\<not> isWhiteSpace (last morse)"
    by simp_all
qed

lemma Object_prototype_names: "map_of Object_prototype key = Some t \<Longrightarrow> 7 \<le> length key"
  by (auto simp add: Object_prototype_def split: if_splits)

lemma encodeChar_Some: "map_of MORSE_MAP char = Some morse \<Longrightarrow> encodeChar char = morse"
  by (simp add: encodeChar_def getProp_def js_or_def MORSE_MAP_entry(2))

lemma encodeChar_None:
  assumes "map_of MORSE_MAP [c] = None"
  shows "encodeChar [c] = []"
proof -
  have "map_of Object_prototype [c] = None"
    using Object_prototype_names [of "[c]"] by (cases "map_of Object_prototype [c]") auto
  with assms show ?thesis by (simp add: encodeChar_def getProp_def js_or_def)
qed

lemma decodeToken_Some:
  assumes "map_of REVERSE_MORSE_MAP code = Some char"
  shows "decodeToken code = char" and "length char = 1"
proof -
  from assms have "map_of MORSE_MAP char = Some code" by (simp add: map_of_REVERSE_MORSE_MAP)
  then show "length char = 1" by (rule MORSE_MAP_entry(1))
  then have "char \<noteq> []" by auto
  with assms show "decodeToken code = char" by (simp add: decodeToken_def getProp_def js_or_def)
qed

lemma decodeToken_None:
  assumes "map_of REVERSE_MORSE_MAP code = None"
  shows "map_of Object_prototype code = None \<Longrightarrow> decodeToken code = ''?''"
    and "map_of Object_prototype code = Some t \<Longrightarrow> decodeToken code = t"
proof -
  have "map_of REVERSE_MORSE_MAP ''/'' = Some '' ''"
    by (simp add: map_of_REVERSE_MORSE_MAP MORSE_MAP_def)
  with assms have "code \<noteq> ''/''" by auto
  with assms show "map_of Object_prototype code = None \<Longrightarrow> decodeToken code = ''?''"
    and "map_of Object_prototype code = Some t \<Longrightarrow> decodeToken code = t"
    by (simp_all add: decodeToken_def getProp_def js_or_def)
qed

lemma supportedChars_inAlphabet: "list_all inAlphabet supportedChars"
  by code_simp

subsection \<open>Encoding and decoding\<close>

lemma decodeMorse_tokens:
  "decodeMorse morse = concat (map decodeToken (String_split (CHR '' '') morse))"
  by (simp add: decodeMorse_def join_Nil_sep)

lemma encodeMorse_chars:
  "encodeMorse inp = trim (join '' '' (map (\<lambda>u. encodeChar [u]) (toUpperCase inp)))"
  by (simp add: encodeMorse_def split_chars_def comp_def)

lemma inTable_token:
  assumes "inTable u"
  shows "map_of MORSE_MAP [u] = Some (encodeChar [u])"
proof -
  from assms obtain morse where "map_of MORSE_MAP [u] = Some morse"
    by (auto simp add: inTable_def)
  then show ?thesis by (simp add: encodeChar_Some)
qed

lemma not_inTable_token: "\<not> inTable u \<Longrightarrow> encodeChar [u] = []"
  by (simp add: inTable_def encodeChar_None)

lemma inTable_token_shape:
  assumes "inTable u"
  shows "encodeChar [u] \<noteq> []"
    and "CHR '' '' \<notin> set (encodeChar [u])"
    and "\<not> isWhiteSpace (hd (encodeChar [u]))"
    and "\<not> isWhiteSpace (last (encodeChar [u]))"
  using MORSE_MAP_entry(2-5) [OF inTable_token [OF assms]] by simp_all



lemma token_no_space: "CHR '' '' \<notin> set (encodeChar [u])"
  by (cases "inTable u") (simp_all add: inTable_token_shape not_inTable_token)

lemma decodeToken_encodeChar:
  assumes "inTable u"
  shows "decodeToken (encodeChar [u]) = [u]"
proof -
  from assms have "map_of REVERSE_MORSE_MAP (encodeChar [u]) = Some [u]"
    by (simp add: map_of_REVERSE_MORSE_MAP inTable_token)
  then show ?thesis by (rule decodeToken_Some(1))
qed

lemma join_last:
  assumes "ts \<noteq> []" and "last ts \<noteq> []"
  shows "join sep ts \<noteq> [] \<and> last (join sep ts) = last (last ts)"
  using assms by (induction sep ts rule: join.induct) auto

lemma join_hd:
  assumes "ts \<noteq> []" and "hd ts \<noteq> []"
  shows "hd (join sep ts) = hd (hd ts)"
  using assms by (induction sep ts rule: join.induct) auto

lemma trim_join_unsupported_left:
  assumes "list_all (\<lambda>u. \<not> inTable u) p"
  shows "trim (join '' '' (map (\<lambda>u. encodeChar [u]) p @ ts)) = trim (join '' '' ts)"
  using assms by (induction p) (simp_all add: not_inTable_token trim_join_Nil_left)

lemma trim_join_unsupported_right:
  assumes "list_all (\<lambda>u. \<not> inTable u) q"
  shows "trim (join '' '' (ts @ map (\<lambda>u. encodeChar [u]) q)) = trim (join '' '' ts)"
  using assms
proof (induction q rule: rev_induct)
  case Nil
  then show ?case by simp
next
  case (snoc c q)
  then have "trim (join '' '' ((ts @ map (\<lambda>u. encodeChar [u]) q) @ [[]])) =
      trim (join '' '' ts)"
    by (simp only: trim_join_Nil_right) simp
  with snoc.prems show ?case by (simp add: not_inTable_token)
qed

lemma list_all_takeWhile: "list_all P (takeWhile P xs)"
  by (induction xs) simp_all

text \<open>An upper-cased text is its span between two runs of characters outside the table.\<close>

lemma supportedSpan_split:
  "\<exists>p q. upper = p @ supportedSpan upper @ q
         \<and> list_all (\<lambda>u. \<not> inTable u) p \<and> list_all (\<lambda>u. \<not> inTable u) q"
proof -
  let ?f = "\<lambda>u. \<not> inTable u"
  let ?v = "dropWhile ?f upper"
  let ?p = "takeWhile ?f upper"
  let ?q = "rev (takeWhile ?f (rev ?v))"
  have "rev (takeWhile ?f (rev ?v) @ dropWhile ?f (rev ?v)) = rev (rev ?v)"
    by (simp only: takeWhile_dropWhile_id)
  then have "rev (dropWhile ?f (rev ?v)) @ ?q = ?v"
    by (simp only: rev_append rev_rev_ident)
  then have v: "?v = supportedSpan upper @ ?q" by (simp only: supportedSpan_def)
  have "upper = ?p @ ?v" by simp
  with v have "upper = ?p @ supportedSpan upper @ ?q" by simp
  moreover have "list_all ?f ?p" by (rule list_all_takeWhile)
  moreover have "list_all ?f ?q" by (simp add: list_all_takeWhile)
  ultimately show ?thesis by blast
qed

lemma supportedSpan_ends:
  assumes "supportedSpan upper \<noteq> []"
  shows "inTable (hd (supportedSpan upper))" and "inTable (last (supportedSpan upper))"
proof -
  let ?f = "\<lambda>u. \<not> inTable u"
  let ?v = "dropWhile ?f upper"
  let ?w = "dropWhile ?f (rev ?v)"
  from assms have w: "?w \<noteq> []" by (simp add: supportedSpan_def)
  then have "\<not> ?f (hd ?w)" by (rule hd_dropWhile)
  with w show "inTable (last (supportedSpan upper))"
    by (simp add: supportedSpan_def last_rev)
  from w have "last ?w = last (rev ?v)"
    by (metis append_Nil2 last_appendR takeWhile_dropWhile_id)
  moreover from w have "rev ?v \<noteq> []" by (metis dropWhile.simps(1))
  ultimately have "last ?w = hd ?v" by (simp add: last_rev)
  moreover from \<open>rev ?v \<noteq> []\<close> have "?v \<noteq> []" by simp
  then have "\<not> ?f (hd ?v)" by (rule hd_dropWhile)
  ultimately show "inTable (hd (supportedSpan upper))"
    using w by (simp add: supportedSpan_def hd_rev)
qed

lemma supportedSpan_id:
  assumes "list_all inTable upper"
  shows "supportedSpan upper = upper"
proof -
  from assms have "dropWhile (\<lambda>u. \<not> inTable u) upper = upper"
    by (cases upper) simp_all
  moreover from assms have "dropWhile (\<lambda>u. \<not> inTable u) (rev upper) = rev upper"
    by (cases "rev upper") (auto simp add: list_all_iff dest: arg_cong [where f = set])
  ultimately show ?thesis by (simp add: supportedSpan_def)
qed


text \<open>
  The encoding is the tokens of the span joined by single spaces: the trim removes what
  the characters before and after the span leave, and nothing else.
\<close>

lemma encodeMorse_span:
  "encodeMorse inp =
     join '' '' (map (\<lambda>u. encodeChar [u]) (supportedSpan (toUpperCase inp)))"
proof -
  let ?u = "toUpperCase inp"
  let ?ts = "map (\<lambda>u. encodeChar [u]) (supportedSpan ?u)"
  obtain p q where s: "?u = p @ supportedSpan ?u @ q"
    and p: "list_all (\<lambda>u. \<not> inTable u) p" and q: "list_all (\<lambda>u. \<not> inTable u) q"
    using supportedSpan_split by blast
  have "encodeMorse inp = trim (join '' '' (map (\<lambda>u. encodeChar [u]) (p @ supportedSpan ?u @ q)))"
    using s by (simp add: encodeMorse_chars)
  also have "\<dots> = trim (join '' '' (map (\<lambda>u. encodeChar [u]) p
      @ (?ts @ map (\<lambda>u. encodeChar [u]) q)))"
    by simp
  also have "\<dots> = trim (join '' '' (?ts @ map (\<lambda>u. encodeChar [u]) q))"
    using p by (rule trim_join_unsupported_left)
  also have "\<dots> = trim (join '' '' ?ts)"
    using q by (rule trim_join_unsupported_right)
  also have "\<dots> = join '' '' ?ts"
  proof (cases "supportedSpan ?u = []")
    case True
    then show ?thesis by (simp add: trim_def)
  next
    case False
    then have n: "?ts \<noteq> []" by simp
    from False have h: "hd ?ts \<noteq> []" "\<not> isWhiteSpace (hd (hd ?ts))"
      using inTable_token_shape(1,3) [OF supportedSpan_ends(1) [OF False]]
      by (simp_all add: hd_map)
    from False have l: "last ?ts \<noteq> []" "\<not> isWhiteSpace (last (last ?ts))"
      using inTable_token_shape(1,4) [OF supportedSpan_ends(2) [OF False]]
      by (simp_all add: last_map)
    from join_last [OF n l(1), of "'' ''"] join_hd [OF n h(1), of "'' ''"] h(2) l(2)
    show ?thesis by (intro trim_id) simp_all
  qed
  finally show ?thesis .
qed

lemma split_encodeMorse:
  "String_split (CHR '' '') (encodeMorse inp) =
     (if supportedSpan (toUpperCase inp) = [] then [[]]
      else map (\<lambda>u. encodeChar [u]) (supportedSpan (toUpperCase inp)))"
proof (cases "supportedSpan (toUpperCase inp) = []")
  case True
  then show ?thesis by (simp add: encodeMorse_span)
next
  case False
  let ?ts = "map (\<lambda>u. encodeChar [u]) (supportedSpan (toUpperCase inp))"
  from False have n: "?ts \<noteq> []" by simp
  have "\<forall>t\<in>set ?ts. CHR '' '' \<notin> set t" by (auto simp add: token_no_space)
  from split_join [OF n this] False show ?thesis by (simp add: encodeMorse_span)
qed





lemma toUpperChars_not_Nil: "toUpperChars c \<noteq> []"
  by (simp add: toUpperChars_def split: option.splits)


lemma toUpperCase_supported:
  "list_all inAlphabet inp \<Longrightarrow> list_all inTable (toUpperCase inp)"
  by (induction inp) (simp_all add: toUpperCase_def inAlphabet_def)






lemma concat_decodeToken:
  assumes "list_all inTable upper"
  shows "concat (map decodeToken (map (\<lambda>u. encodeChar [u]) upper)) = upper"
  using assms by (induction upper) (simp_all add: decodeToken_encodeChar)

lemma roundtrip_nonempty:
  assumes "inp \<noteq> []" and "list_all inAlphabet inp"
  shows "decodeMorse (encodeMorse inp) = toUpperCase inp"
proof -
  let ?u = "toUpperCase inp"
  from assms(2) have a: "list_all inTable ?u" by (rule toUpperCase_supported)
  from assms(1) have n: "?u \<noteq> []"
    by (cases inp) (simp_all add: toUpperCase_def toUpperChars_not_Nil)
  from a have s: "supportedSpan ?u = ?u" by (rule supportedSpan_id)
  with n have "String_split (CHR '' '') (encodeMorse inp) = map (\<lambda>u. encodeChar [u]) ?u"
    by (simp add: split_encodeMorse)
  then have "decodeMorse (encodeMorse inp) =
      concat (map decodeToken (map (\<lambda>u. encodeChar [u]) ?u))"
    by (simp only: decodeMorse_tokens)
  then show ?thesis by (simp only: concat_decodeToken [OF a])
qed

lemma dropUnsupported_idem: "dropUnsupported (dropUnsupported s) = dropUnsupported s"
  by (simp add: dropUnsupported_def)

text \<open>
  Where no token is the name of a property inherited from \<open>Object.prototype\<close>, decoding
  gives one character for each token: the character of the inverse table, or \<open>?\<close>.
\<close>

lemma decodeToken_one_char:
  assumes "map_of Object_prototype code = None"
  shows "decodeToken code =
          (case map_of REVERSE_MORSE_MAP code of Some char \<Rightarrow> char | None \<Rightarrow> ''?'')"
    and "length (decodeToken code) = 1"
  using assms decodeToken_Some [of code] decodeToken_None(1) [of code]
  by (cases "map_of REVERSE_MORSE_MAP code"; simp)+

lemma length_concat_singletons:
  "\<forall>x\<in>set xs. length (f x) = 1 \<Longrightarrow> length (concat (map f xs)) = length xs"
  by (induction xs) simp_all

lemma decodeMorse_one_char_per_token:
  assumes "\<forall>code\<in>set (String_split (CHR '' '') morse). map_of Object_prototype code = None"
  shows "length (decodeMorse morse) = length (String_split (CHR '' '') morse)"
    and "decodeMorse morse =
          concat (map (\<lambda>code. case map_of REVERSE_MORSE_MAP code of
                                Some char \<Rightarrow> char | None \<Rightarrow> ''?'')
                      (String_split (CHR '' '') morse))"
proof -
  from assms show "length (decodeMorse morse) = length (String_split (CHR '' '') morse)"
    unfolding decodeMorse_tokens
    by (intro length_concat_singletons) (simp add: decodeToken_one_char(2))
  from assms have "map decodeToken (String_split (CHR '' '') morse) =
      map (\<lambda>code. case map_of REVERSE_MORSE_MAP code of Some char \<Rightarrow> char | None \<Rightarrow> ''?'')
        (String_split (CHR '' '') morse)"
    by (intro map_cong) (simp_all add: decodeToken_one_char(1))
  then show "decodeMorse morse =
          concat (map (\<lambda>code. case map_of REVERSE_MORSE_MAP code of
                                Some char \<Rightarrow> char | None \<Rightarrow> ''?'')
                      (String_split (CHR '' '') morse))"
    unfolding decodeMorse_tokens by (rule arg_cong)
qed

subsection \<open>Evaluating the transcoder\<close>

lemmas transcoder_eval = decodeMorse_def decodeToken_def encodeMorse_def encodeChar_def
  getProp_def js_or_def REVERSE_MORSE_MAP_explicit MORSE_MAP_def Object_prototype_def
  nativeFunction_def toUpperCase_def toUpperChars_def lowerCase_def upperCase_def
  split_chars_def trim_def isWhiteSpace_def

text \<open>
  Decoding after encoding gives back the upper-cased text, for every text of supported
  characters but the empty one.
\<close>

lemma decode_encode_nonempty:
  assumes "inp \<noteq> []" and "set inp \<subseteq> set supportedChars"
  shows "decodeMorse (encodeMorse inp) = toUpperCase inp"
proof -
  from assms(2) supportedChars_inAlphabet have "list_all inAlphabet inp"
    unfolding list_all_iff by blast
  with assms(1) show ?thesis by (rule roundtrip_nonempty)
qed

text \<open>
  Upper-casing beyond the letters a to z: U+00E9 gives U+00C9, which is no key of the
  table, and U+00DF gives \<open>SS\<close>, which is encoded.
\<close>

lemma encodeMorse_examples:
  "toUpperCase [CHR 0xE9] = [CHR 0xC9]"
  "encodeMorse [CHR 0xE9] = []"
  "toUpperCase [CHR 0xDF] = ''SS''"
  "encodeMorse [CHR 0xDF] = ''... ...''"
  by (simp_all add: transcoder_eval)

text \<open>The two decodings that the specification gives as examples.\<close>

lemma decodeMorse_examples:
  "decodeMorse ''!!!'' = ''?''"
  "decodeMorse ''... --- ... / -.-. --- -- --'' = ''SOS COMM''"
  by (simp_all add: transcoder_eval)

subsection \<open>The claims about the transcoder\<close>

text \<open>
  C1 holds for every text of supported characters but the empty one
  (\<open>decode_encode_nonempty\<close>). The empty text encodes to the empty string, which decodes
  to \<open>?\<close> and not to the empty string.
\<close>

theorem c1_empty_text_roundtrip:
  "set [] \<subseteq> set supportedChars
   \<and> encodeMorse [] = []
   \<and> decodeMorse (encodeMorse []) = ''?''
   \<and> decodeMorse (encodeMorse []) \<noteq> toUpperCase []"
  by (simp add: transcoder_eval)

text \<open>
  C2 holds for the tokens that name no inherited property
  (\<open>decodeMorse_one_char_per_token\<close>, \<open>decodeMorse_examples\<close>). The token \<open>constructor\<close>
  is not in the inverse table, and the property read finds \<open>Object.prototype.constructor\<close>:
  the one token decodes to the text of that function, not to \<open>?\<close>.
\<close>

theorem c2_inherited_property_token:
  "String_split (CHR '' '') ''constructor'' = [''constructor'']
   \<and> map_of REVERSE_MORSE_MAP ''constructor'' = None
   \<and> decodeMorse ''constructor'' = ''function Object() { [native code] }''
   \<and> decodeMorse ''constructor'' \<noteq> ''?''
   \<and> length (decodeMorse ''constructor'') = 35"
  by (simp add: transcoder_eval)




text \<open>
  C4: the inverse table holds exactly the reversed pairs of the forward table
  (\<open>set_REVERSE_MORSE_MAP\<close>, \<open>map_of_REVERSE_MORSE_MAP\<close>), and a character missing from the
  forward table gives the empty token (\<open>encodeChar_None\<close>). A token missing from the
  inverse table gives \<open>?\<close> only if it names no inherited property (\<open>decodeToken_None\<close>):
  the read of \<open>constructor\<close> gives a function, which is truthy, so the \<open>?\<close> is not used.
\<close>

theorem c4_lookup_of_inherited_name:
  "map_of REVERSE_MORSE_MAP ''constructor'' = None
   \<and> getProp REVERSE_MORSE_MAP ''constructor'' = Builtin ''function Object() { [native code] }''
   \<and> truthy (getProp REVERSE_MORSE_MAP ''constructor'')
   \<and> decodeToken ''constructor'' \<noteq> ''?''"
  by (simp add: transcoder_eval)

text \<open>
  C9. Splitting the empty string gives one empty token, which the inverse table does not
  hold, so the empty string decodes to \<open>?\<close>; the empty text encodes to the empty string,
  so decoding its encoding gives \<open>?\<close> too.
\<close>

theorem c9_decode_of_empty_string:
  "String_split (CHR '' '') [] = [[]]
   \<and> map_of REVERSE_MORSE_MAP [] = None
   \<and> getProp REVERSE_MORSE_MAP [] = Undefined
   \<and> decodeMorse [] = ''?''
   \<and> decodeMorse [] \<noteq> []
   \<and> decodeMorse (encodeMorse []) = ''?''"
  by (simp add: transcoder_eval)


section \<open>Properties of the keyer\<close>

lemma find_filter_tid: "find (\<lambda>x. tid x = t) (filter (\<lambda>x. tid x \<noteq> t) xs) = None"
  by (induction xs) auto

lemma MorseAudio_stop_fields [simp]:
  "currentSequence (MorseAudio_stop now s) = currentSequence s"
  "lastPressTime (MorseAudio_stop now s) = lastPressTime s"
  "inputMorse (MorseAudio_stop now s) = inputMorse s"
  "isMuted (MorseAudio_stop now s) = isMuted s"
  "signalActive (MorseAudio_stop now s) = signalActive s"
  by (simp_all add: MorseAudio_stop_def setTimeout_def)

lemma currentSequence_handleKeyUp:
  "currentSequence (handleKeyUp now s) =
     currentSequence s @ [if now - lastPressTime s < 200 then CHR ''.'' else CHR ''-'']"
  by (simp add: handleKeyUp_def setTimeout_def Let_def)

lemma handleKeyDown_unmuted:
  assumes "\<not> isMuted s"
  shows "lastPressTime (handleKeyDown now s) = now"
    and "currentSequence (handleKeyDown now s) = currentSequence s"
    and "signalActive (handleKeyDown now s)"
    and "gainNode (audio (handleKeyDown now s)) = Some Audible"
  using assms
  by (simp_all add: handleKeyDown_def clearTimeout_def Let_def MorseAudio_start_def
      MorseAudio_init_def split: option.splits)


subsection \<open>Timeouts firing\<close>








lemma distinct_tid_unique:
  assumes "distinct (map tid xs)" and "x \<in> set xs" and "y \<in> set xs" and "tid x = tid y"
  shows "x = y"
  using assms by (meson distinct_map inj_onD)


lemma find_tid_Some:
  assumes "distinct (map tid xs)" and "x \<in> set xs"
  shows "find (\<lambda>y. tid y = tid x) xs = Some x"
proof -
  from assms(2) obtain y where y: "find (\<lambda>y. tid y = tid x) xs = Some y"
    by (cases "find (\<lambda>y. tid y = tid x) xs") (auto simp add: find_None_iff)
  then have "y \<in> set xs" "tid y = tid x" by (auto simp add: find_Some_iff)
  with assms have "y = x" by (meson distinct_tid_unique)
  with y show ?thesis by simp
qed






subsection \<open>The timeouts stay well formed\<close>













subsection \<open>Presses that follow one another within 600 ms\<close>











subsection \<open>The claims about the keyer\<close>

text \<open>
  C5. On key-up the symbol appended to the in-progress buffer is a dot when
  \<open>now - lastPressTime\<close> is below 200 ms and a dash otherwise: a measured duration of
  150 ms appends a dot, one of 250 ms a dash. When the key is not muted, key-down stores
  its time, so a key-down followed 150 ms (250 ms) later by key-up appends a dot (a dash).
\<close>

theorem c5_key_up_classifies_press:
  "currentSequence (handleKeyUp now s) =
     currentSequence s @ (if now - lastPressTime s < 200 then ''.'' else ''-'')
   \<and> currentSequence (handleKeyUp (lastPressTime s + 150) s) = currentSequence s @ ''.''
   \<and> currentSequence (handleKeyUp (lastPressTime s + 250) s) = currentSequence s @ ''-''
   \<and> (\<not> isMuted s \<longrightarrow>
        currentSequence (handleKeyUp (t + 150) (handleKeyDown t s)) = currentSequence s @ ''.''
      \<and> currentSequence (handleKeyUp (t + 250) (handleKeyDown t s)) = currentSequence s @ ''-'')"
  by (simp add: currentSequence_handleKeyUp handleKeyDown_unmuted)

theorem c5_witness:
  "\<not> isMuted initial
   \<and> currentSequence (handleKeyUp 1150 (handleKeyDown 1000 initial)) = ''.''
   \<and> currentSequence (handleKeyUp 1250 (handleKeyDown 1000 initial)) = ''-''"
  using c5_key_up_classifies_press [of 0 initial 1000] by (simp add: initial_def)

text \<open>
  C6, as the code has it. When a pending commit timeout fires and the in-progress buffer
  is not empty, the Morse input field becomes field, space, buffer if the field was not
  empty and the buffer alone if it was, and the buffer is cleared. When the buffer is
  empty (the callback tests it), the field and the buffer stay as they are. Either way the
  timeout is no longer pending.
\<close>

theorem c6_commit_flushes_nonempty_buffer:
  assumes "find (\<lambda>x. tid x = t) (timers s) = Some x" and "callback x = Commit"
  shows "(currentSequence s \<noteq> [] \<longrightarrow>
            inputMorse (fire t s) =
              (if inputMorse s \<noteq> [] then inputMorse s @ '' '' @ currentSequence s
               else currentSequence s)
          \<and> currentSequence (fire t s) = [])
       \<and> (currentSequence s = [] \<longrightarrow>
            inputMorse (fire t s) = inputMorse s \<and> currentSequence (fire t s) = [])
       \<and> find (\<lambda>x. tid x = t) (timers (fire t s)) = None"
  using assms by (simp add: fire_def commit_def clearTimeout_def find_filter_tid)

theorem c6_witness:
  "find (\<lambda>x. tid x = 2) (timers (run one_press initial))
      = Some \<lparr>tid = 2, due = 1750, callback = Commit\<rparr>
   \<and> currentSequence (run one_press initial) = ''.''
   \<and> inputMorse (fire 2 (run one_press initial)) = ''.''
   \<and> currentSequence (fire 2 (run one_press initial)) = []
   \<and> find (\<lambda>x. tid x = 4) (timers (advance 1700 (run drag_out_and_back initial)))
      = Some \<lparr>tid = 4, due = 1800, callback = Commit\<rparr>
   \<and> currentSequence (advance 1700 (run drag_out_and_back initial)) = []
   \<and> inputMorse (fire 4 (advance 1700 (run drag_out_and_back initial))) =
       inputMorse (advance 1700 (run drag_out_and_back initial))"
proof -
  have f: "find (\<lambda>x. tid x = 2) (timers (run one_press initial))
      = Some \<lparr>tid = 2, due = 1750, callback = Commit\<rparr>"
    by code_simp
  have g: "find (\<lambda>x. tid x = 4) (timers (advance 1700 (run drag_out_and_back initial)))
      = Some \<lparr>tid = 4, due = 1800, callback = Commit\<rparr>"
    by code_simp
  have c: "callback \<lparr>tid = 2, due = 1750, callback = Commit\<rparr> = Commit"
    "callback \<lparr>tid = 4, due = 1800, callback = Commit\<rparr> = Commit"
    by simp_all
  have b: "currentSequence (run one_press initial) = ''.''"
    and m: "inputMorse (run one_press initial) = []"
    and e: "currentSequence (advance 1700 (run drag_out_and_back initial)) = []"
    by code_simp+
  show ?thesis
    using c6_commit_flushes_nonempty_buffer [OF f c(1)]
      c6_commit_flushes_nonempty_buffer [OF g c(2)] f g b m e
    by simp
qed

text \<open>
  C6 as stated fails when the buffer is empty. After \<open>drag_out_and_back\<close> two commit
  timeouts are pending; the first, at 1700, flushes both symbols; when the second fires,
  with no key-down since it was set, the field is \<open>.-\<close> and stays so: no space and empty
  buffer are appended.
\<close>

theorem c6_counterexample:
  "timers (advance 1700 (run drag_out_and_back initial)) =
     [\<lparr>tid = 4, due = 1800, callback = Commit\<rparr>]
   \<and> inputMorse (advance 1700 (run drag_out_and_back initial)) = ''.-''
   \<and> currentSequence (advance 1700 (run drag_out_and_back initial)) = []
   \<and> inputMorse (fire 4 (advance 1700 (run drag_out_and_back initial))) = ''.-''
   \<and> inputMorse (fire 4 (advance 1700 (run drag_out_and_back initial))) \<noteq>
       inputMorse (advance 1700 (run drag_out_and_back initial)) @ '' ''
         @ currentSequence (advance 1700 (run drag_out_and_back initial))"
  by code_simp




text \<open>
  C8. With the mute flag set, a key-down leaves the whole state as it is: the signal flag,
  the tone generator, the last-press time, the pending timeouts and \<open>timeoutRef\<close>, and the
  in-progress buffer.
\<close>

theorem c8_muted_key_down_changes_nothing:
  assumes "isMuted s"
  shows "handleKeyDown now s = s
       \<and> signalActive (handleKeyDown now s) = signalActive s
       \<and> audio (handleKeyDown now s) = audio s
       \<and> lastPressTime (handleKeyDown now s) = lastPressTime s
       \<and> timers (handleKeyDown now s) = timers s
       \<and> timeoutRef (handleKeyDown now s) = timeoutRef s
       \<and> currentSequence (handleKeyDown now s) = currentSequence s"
  using assms by (simp add: handleKeyDown_def)

theorem c8_witness:
  "isMuted (run muted_release initial)
   \<and> handleKeyDown 1300 (run muted_release initial) = run muted_release initial
   \<and> currentSequence (handleKeyDown 1300 (run muted_release initial)) = ''-''
   \<and> lastPressTime (handleKeyDown 1300 (run muted_release initial)) = 0"
proof -
  have u: "isMuted (run muted_release initial)"
    and b: "currentSequence (run muted_release initial) = ''-''"
    and l: "lastPressTime (run muted_release initial) = 0"
    by code_simp+
  show ?thesis using c8_muted_key_down_changes_nothing [OF u, of 1300] u b l by simp
qed

text \<open>
  C10. \<open>handleKeyUp\<close> does not look at the mute flag. In every state a key-up clears the
  signal flag, leaves the gain of the tone generator not audible, appends to the
  in-progress buffer the dot or dash computed from the stored last-press time, and sets a
  commit timeout due 600 ms later, which \<open>timeoutRef\<close> then holds. Its result is the same
  whatever the mute flag is, but for the flag itself.
\<close>

theorem c10_key_up_ignores_mute:
  "signalActive (handleKeyUp now s) = False
   \<and> gainNode (audio (handleKeyUp now s)) \<noteq> Some Audible
   \<and> currentSequence (handleKeyUp now s) =
       currentSequence s @ (if now - lastPressTime s < 200 then ''.'' else ''-'')
   \<and> (\<exists>t. timeoutRef (handleKeyUp now s) = Some t
          \<and> \<lparr>tid = t, due = now + 600, callback = Commit\<rparr> \<in> set (timers (handleKeyUp now s)))
   \<and> handleKeyUp now (s\<lparr>isMuted := b\<rparr>) = (handleKeyUp now s)\<lparr>isMuted := b\<rparr>"
  by (simp add: handleKeyUp_def setTimeout_def Let_def MorseAudio_stop_def)

end
